theory Spec2Isabelle
  imports Main "HOL-Library.Word"
begin

unbundle bit_operations_syntax

section \<open>The base64 decoder utility\<close>

text \<open>
  The program is \<^verbatim>\<open>dive25/utils/base64_decoder.py\<close>: one function,
  \<^verbatim>\<open>decode_base64_file(input_file, output_file=None)\<close>, and a command-line entry
  that calls it with the parsed arguments. The function reads a text file, strips it,
  decodes it with \<^verbatim>\<open>base64.b64decode\<close>, writes the bytes to the output path and
  prints a confirmation; any exception is reported on standard error and ends the process
  with status 1.

  Python values are modelled as follows. A \<^verbatim>\<open>str\<close> is a \<^typ>\<open>string\<close> whose
  characters are the code points below 256 (the code points from 128 on are the non-ASCII
  ones); \<^verbatim>\<open>bytes\<close> is a list of 8-bit words; an exception is a value of
  \<^verbatim>\<open>exn\<close> that carries the text \<^verbatim>\<open>str(e)\<close> gives.
\<close>

type_synonym byte = "8 word"

datatype exn =
    OSError string
  | UnicodeDecodeError string
  | UnicodeEncodeError string
  | ValueError string
  | BinasciiError string

fun str_exn :: "exn \<Rightarrow> string" where
  "str_exn (OSError m) = m"
| "str_exn (UnicodeDecodeError m) = m"
| "str_exn (UnicodeEncodeError m) = m"
| "str_exn (ValueError m) = m"
| "str_exn (BinasciiError m) = m"

definition newline :: char where
  "newline = CHR 0x0A"

subsection \<open>\<^verbatim>\<open>str.strip()\<close>\<close>

text \<open>
  With no argument, \<^verbatim>\<open>strip\<close> removes the leading and the trailing characters for which
  \<^verbatim>\<open>str.isspace\<close> holds. Below 256 these are the code points 9 to 13, 28 to 32, 133 and 160.
\<close>

definition isspace :: "char \<Rightarrow> bool" where
  "isspace c = ((of_char c :: nat) \<in> {9, 10, 11, 12, 13, 28, 29, 30, 31, 32, 133, 160})"

definition strip :: "string \<Rightarrow> string" where
  "strip s = rev (dropWhile isspace (rev (dropWhile isspace s)))"

subsection \<open>\<^verbatim>\<open>base64.b64decode(s)\<close> with its default arguments\<close>

text \<open>
  The source calls the standard library's \<^verbatim>\<open>base64.b64decode\<close> on a \<^verbatim>\<open>str\<close>, with
  \<^verbatim>\<open>altchars=None\<close> and \<^verbatim>\<open>validate=False\<close>. The library first turns the string into
  bytes (\<^verbatim>\<open>_bytes_from_decode_data\<close>: \<^verbatim>\<open>s.encode('ascii')\<close>, a \<^verbatim>\<open>ValueError\<close> when a
  character is not ASCII) and then runs \<^verbatim>\<open>binascii.a2b_base64\<close> in its non-strict mode
  (CPython 3.11, \<^verbatim>\<open>Modules/binascii.c\<close>), which is the loop below: a character that is
  neither in the alphabet nor \<^verbatim>\<open>=\<close> is skipped, a pad that completes a quad ends the
  decoding, and a quad left open at the end of the input is an error.
\<close>

definition is_ascii :: "char \<Rightarrow> bool" where
  "is_ascii c = ((of_char c :: nat) < 128)"

definition bytes_from_decode_data :: "string \<Rightarrow> exn + byte list" where
  "bytes_from_decode_data s =
     (if list_all is_ascii s then Inr (map of_char s)
      else Inl (ValueError ''string argument should contain only ASCII characters''))"

definition BASE64_PAD :: byte where
  "BASE64_PAD = 61"

text \<open>
  \<^verbatim>\<open>table_a2b_base64\<close>: the value of an alphabet character (\<^verbatim>\<open>A-Z\<close> 0 to 25,
  \<^verbatim>\<open>a-z\<close> 26 to 51, \<^verbatim>\<open>0-9\<close> 52 to 61, \<^verbatim>\<open>+\<close> 62, \<^verbatim>\<open>/\<close> 63), 0 for the pad, and
  255 (the C table's \<^verbatim>\<open>-1\<close>) for every other byte.
\<close>

definition table_a2b_base64 :: "byte \<Rightarrow> byte" where
  "table_a2b_base64 c =
     (if 65 \<le> c \<and> c \<le> 90 then c - 65
      else if 97 \<le> c \<and> c \<le> 122 then c - 71
      else if 48 \<le> c \<and> c \<le> 57 then c + 4
      else if c = 43 then 62
      else if c = 47 then 63
      else if c = 61 then 0
      else 255)"

text \<open>
  The decoding loop leaves either through \<^verbatim>\<open>goto done\<close> (a pad sequence closed the
  quad) or by running off the end of the input with the current \<^verbatim>\<open>quad_pos\<close>. Its
  state is \<^verbatim>\<open>quad_pos\<close>, \<^verbatim>\<open>leftchar\<close>, \<^verbatim>\<open>pads\<close> and the bytes written so far.
  \<^verbatim>\<open>pads\<close> is incremented only when \<^verbatim>\<open>quad_pos >= 2\<close> (the \<^verbatim>\<open>&&\<close> short-circuits).
\<close>

datatype loop_exit = Goto_done "byte list" | Loop_end nat "byte list"

fun a2b_loop :: "nat \<Rightarrow> byte \<Rightarrow> nat \<Rightarrow> byte list \<Rightarrow> byte list \<Rightarrow> loop_exit" where
  "a2b_loop quad_pos leftchar pads bin_data [] = Loop_end quad_pos bin_data"
| "a2b_loop quad_pos leftchar pads bin_data (c # rest) =
     (if c = BASE64_PAD then
        (if quad_pos \<ge> 2 then
           (if quad_pos + (pads + 1) \<ge> 4 then Goto_done bin_data
            else a2b_loop quad_pos leftchar (pads + 1) bin_data rest)
         else a2b_loop quad_pos leftchar pads bin_data rest)
      else
        (let this_ch = table_a2b_base64 c in
         if this_ch \<ge> 64 then a2b_loop quad_pos leftchar pads bin_data rest
         else if quad_pos = 0 then a2b_loop 1 this_ch 0 bin_data rest
         else if quad_pos = 1 then
           a2b_loop 2 (this_ch AND 0x0f) 0
             (bin_data @ [push_bit 2 leftchar OR drop_bit 4 this_ch]) rest
         else if quad_pos = 2 then
           a2b_loop 3 (this_ch AND 0x03) 0
             (bin_data @ [push_bit 4 leftchar OR drop_bit 2 this_ch]) rest
         else
           a2b_loop 0 0 0 (bin_data @ [push_bit 6 leftchar OR this_ch]) rest))"

fun str_nat :: "nat \<Rightarrow> string" where
  "str_nat n =
     (if n < 10 then [char_of (48 + n)]
      else str_nat (n div 10) @ [char_of (48 + n mod 10)])"

definition a2b_base64 :: "byte list \<Rightarrow> exn + byte list" where
  "a2b_base64 data =
     (case a2b_loop 0 0 0 [] data of
        Goto_done bin_data \<Rightarrow> Inr bin_data
      | Loop_end quad_pos bin_data \<Rightarrow>
          (if quad_pos \<noteq> 0 then
             (if quad_pos = 1 then
                Inl (BinasciiError
                  (''Invalid base64-encoded string: number of data characters (''
                   @ str_nat (length bin_data div 3 * 4 + 1)
                   @ '') cannot be 1 more than a multiple of 4''))
              else Inl (BinasciiError ''Incorrect padding''))
           else Inr bin_data))"

definition b64decode :: "string \<Rightarrow> exn + byte list" where
  "b64decode s =
     (case bytes_from_decode_data s of
        Inl e \<Rightarrow> Inl e
      | Inr data \<Rightarrow> a2b_base64 data)"

subsection \<open>The files and the two output streams\<close>

text \<open>
  The world the function runs in. \<^verbatim>\<open>read_text p\<close> is what
  \<^verbatim>\<open>open(p, 'r')\<close> followed by \<^verbatim>\<open>f.read()\<close> gives: the text of the file, or the
  exception raised (a missing file, a directory, a decoding error). \<^verbatim>\<open>open_wb p\<close> is
  the exception \<^verbatim>\<open>open(p, 'wb')\<close> raises, if any. \<^verbatim>\<open>write_fault p\<close> is a fault of
  \<^verbatim>\<open>f.write\<close> on that file, if any: the exception and the number of bytes that reached
  the file before it. \<^verbatim>\<open>stdout_fault s\<close> is the exception \<^verbatim>\<open>print(s)\<close> raises on
  standard output, if any (a \<^verbatim>\<open>UnicodeEncodeError\<close> when the stream cannot encode a
  character of \<^verbatim>\<open>s\<close>, as for a path with a surrogate escape). \<^verbatim>\<open>files\<close> holds the
  bytes of the files; \<^verbatim>\<open>stdout\<close> and \<^verbatim>\<open>stderr\<close> hold the text printed so far. A run
  reads once, then writes once, then prints once, so the oracles are asked about the
  world as it is when the run starts.

  Opening a file with \<^verbatim>\<open>'wb'\<close> creates or truncates it; a fault in the write that
  follows leaves the bytes written before the fault. A \<^verbatim>\<open>print\<close> to standard output
  that raises prints nothing. The handler's \<^verbatim>\<open>print\<close> to standard error is taken not
  to fail.
\<close>

record world =
  read_text :: "string \<Rightarrow> exn + string"
  open_wb :: "string \<Rightarrow> exn option"
  write_fault :: "string \<Rightarrow> (exn \<times> nat) option"
  stdout_fault :: "string \<Rightarrow> exn option"
  files :: "string \<rightharpoonup> byte list"
  stdout :: string
  stderr :: string

definition write_file :: "world \<Rightarrow> string \<Rightarrow> byte list \<Rightarrow> world \<times> exn option" where
  "write_file w path data =
     (case open_wb w path of
        Some e \<Rightarrow> (w, Some e)
      | None \<Rightarrow>
          (case write_fault w path of
             Some (e, n) \<Rightarrow> (w\<lparr>files := (files w)(path \<mapsto> take n data)\<rparr>, Some e)
           | None \<Rightarrow> (w\<lparr>files := (files w)(path \<mapsto> data)\<rparr>, None)))"

definition print_stdout :: "world \<Rightarrow> string \<Rightarrow> world \<times> exn option" where
  "print_stdout w s =
     (case stdout_fault w s of
        Some e \<Rightarrow> (w, Some e)
      | None \<Rightarrow> (w\<lparr>stdout := stdout w @ s @ [newline]\<rparr>, None))"

definition print_stderr :: "world \<Rightarrow> string \<Rightarrow> world" where
  "print_stderr w s = w\<lparr>stderr := stderr w @ s @ [newline]\<rparr>"

subsection \<open>\<^verbatim>\<open>decode_base64_file\<close>\<close>

text \<open>
  \<^verbatim>\<open>if not output_file: output_file = input_file + '.decoded'\<close>. Both \<^verbatim>\<open>None\<close> and the
  empty string are false in Python.
\<close>

definition effective_output :: "string \<Rightarrow> string option \<Rightarrow> string" where
  "effective_output input_file output_file =
     (case output_file of
        None \<Rightarrow> input_file @ ''.decoded''
      | Some q \<Rightarrow> (if q = [] then input_file @ ''.decoded'' else q))"

text \<open>The body of the \<^verbatim>\<open>try\<close>: the world it leaves and the exception raised, if any.\<close>

definition try_body :: "world \<Rightarrow> string \<Rightarrow> string option \<Rightarrow> world \<times> exn option" where
  "try_body w input_file output_file =
     (case read_text w input_file of
        Inl e \<Rightarrow> (w, Some e)
      | Inr text \<Rightarrow>
          (let content = strip text in
           case b64decode content of
             Inl e \<Rightarrow> (w, Some e)
           | Inr decoded \<Rightarrow>
               (let output_file' = effective_output input_file output_file in
                case write_file w output_file' decoded of
                  (w', Some e) \<Rightarrow> (w', Some e)
                | (w', None) \<Rightarrow>
                    print_stdout w'
                      (''Decoded '' @ input_file @ '' to '' @ output_file'))))"

text \<open>
  The function either returns or leaves through \<^verbatim>\<open>sys.exit(1)\<close>. Every exception
  the steps of the body raise (the confirmation \<^verbatim>\<open>print\<close> is one of them, inside the
  \<^verbatim>\<open>try\<close>) is an \<^verbatim>\<open>Exception\<close>, so the handler catches it.
\<close>

datatype outcome = Returned | SystemExit int

definition decode_base64_file :: "world \<Rightarrow> string \<Rightarrow> string option \<Rightarrow> world \<times> outcome" where
  "decode_base64_file w input_file output_file =
     (case try_body w input_file output_file of
        (w', None) \<Rightarrow> (w', Returned)
      | (w', Some e) \<Rightarrow> (print_stderr w' (''Error: '' @ str_exn e), SystemExit 1))"

text \<open>
  The command-line entry, after \<^verbatim>\<open>parse_args\<close>: \<^verbatim>\<open>args.input\<close> is the positional
  argument, \<^verbatim>\<open>args.output\<close> is \<^verbatim>\<open>None\<close> without \<^verbatim>\<open>-o\<close>. The process status is 0 when
  the function returns and the argument of \<^verbatim>\<open>sys.exit\<close> otherwise.
\<close>

definition main :: "world \<Rightarrow> string \<Rightarrow> string option \<Rightarrow> world \<times> int" where
  "main w args_input args_output =
     (case decode_base64_file w args_input args_output of
        (w', Returned) \<Rightarrow> (w', 0)
      | (w', SystemExit status) \<Rightarrow> (w', status))"

subsection \<open>Standard base64 encoding\<close>

text \<open>
  The encoding of RFC 4648 that the round-trip property refers to (it is not part of the
  program): three bytes give four characters of the alphabet, and a last group of one or
  two bytes is padded with \<^verbatim>\<open>=\<close>.
\<close>

definition table_b2a_base64 :: string where
  "table_b2a_base64 = ''ABCDEFGHIJKLMNOPQRSTUVWXYZabcdefghijklmnopqrstuvwxyz0123456789+/''"

definition b2a :: "byte \<Rightarrow> char" where
  "b2a v = table_b2a_base64 ! unat v"

fun b64encode :: "byte list \<Rightarrow> string" where
  "b64encode [] = []"
| "b64encode [a] =
     [b2a (drop_bit 2 a), b2a (push_bit 4 (a AND 3)), CHR ''='', CHR ''='']"
| "b64encode [a, b] =
     [b2a (drop_bit 2 a), b2a (push_bit 4 (a AND 3) OR drop_bit 4 b),
      b2a (push_bit 2 (b AND 15)), CHR ''='']"
| "b64encode (a # b # c # rest) =
     [b2a (drop_bit 2 a), b2a (push_bit 4 (a AND 3) OR drop_bit 4 b),
      b2a (push_bit 2 (b AND 15) OR drop_bit 6 c), b2a (c AND 63)] @ b64encode rest"

text \<open>
  The characters of the base64 alphabet, by their code points: \<^verbatim>\<open>A-Z\<close>, \<^verbatim>\<open>a-z\<close>,
  \<^verbatim>\<open>0-9\<close>, \<^verbatim>\<open>+\<close> and \<^verbatim>\<open>/\<close>. The pad \<^verbatim>\<open>=\<close> is not one of them.
\<close>

definition b64_alphabet :: "char \<Rightarrow> bool" where
  "b64_alphabet c =
     (let n = (of_char c :: nat) in
      (65 \<le> n \<and> n \<le> 90) \<or> (97 \<le> n \<and> n \<le> 122) \<or> (48 \<le> n \<and> n \<le> 57) \<or> n = 43 \<or> n = 47)"

subsection \<open>An example world\<close>

text \<open>
  A world with one readable text file and empty output streams, where every path can be
  opened for writing, no write faults and every text can be printed. The file holds the
  UTF-8 encoding of its text. Reading any other path fails as a missing file does, with
  the message Python gives for a plain file name (the name between single quotes).
\<close>

definition utf8 :: "char \<Rightarrow> byte list" where
  "utf8 c =
     (let n = (of_char c :: nat) in
      if n < 128 then [of_nat n] else [of_nat (192 + n div 64), of_nat (128 + n mod 64)])"

definition example_world :: "string \<Rightarrow> string \<Rightarrow> world" where
  "example_world path text =
     \<lparr> read_text = (\<lambda>p. if p = path then Inr text
                        else Inl (OSError (''[Errno 2] No such file or directory: ''
                                             @ [CHR 0x27] @ p @ [CHR 0x27]))),
       open_wb = (\<lambda>p. None),
       write_fault = (\<lambda>p. None),
       stdout_fault = (\<lambda>s. None),
       files = [path \<mapsto> concat (map utf8 text)],
       stdout = [],
       stderr = [] \<rparr>"

text \<open>
  A world whose standard output is an ASCII stream: printing a text with a character
  that is not ASCII raises \<^verbatim>\<open>UnicodeEncodeError\<close>, with Python's message for the first
  such character (its \<^verbatim>\<open>\\x\<close> escape, for a code point below 256) and its position.
\<close>

definition hex_digit :: "nat \<Rightarrow> char" where
  "hex_digit n = ''0123456789abcdef'' ! n"

definition ascii_codec_message :: "string \<Rightarrow> string" where
  "ascii_codec_message s =
     (let i = length (takeWhile is_ascii s); n = (of_char (s ! i) :: nat) in
      [CHR 0x27] @ ''ascii'' @ [CHR 0x27] @ '' codec can'' @ [CHR 0x27]
        @ ''t encode character '' @ [CHR 0x27, CHR 0x5C, CHR ''x'']
        @ [hex_digit (n div 16), hex_digit (n mod 16)] @ [CHR 0x27]
        @ '' in position '' @ str_nat i @ '': ordinal not in range(128)'')"

definition ascii_stdout :: "world \<Rightarrow> world" where
  "ascii_stdout w =
     w\<lparr>stdout_fault :=
         (\<lambda>s. if list_all is_ascii s then None
              else Some (UnicodeEncodeError (ascii_codec_message s)))\<rparr>"

section \<open>Properties\<close>

subsection \<open>Six-bit groups and bytes\<close>

lemma m3: "(3::byte) = mask 2" and m15: "(15::byte) = mask 4" and m63: "(63::byte) = mask 6"
  by (simp_all add: mask_eq_exp_minus_1)

lemma sub2: "2 \<le> n \<Longrightarrow> Suc (Suc (n - 2)) = n" by arith

lemma byte1: "push_bit 2 (drop_bit 2 a) OR drop_bit 4 (push_bit 4 (a AND 3) OR drop_bit 4 b) = (a::byte)"
  unfolding m3 m15 m63
  apply (rule bit_word_eqI)
  subgoal for n
    apply (cases "2 \<le> n"; cases "4 \<le> n")
    apply (auto simp: bit_simps sub2 not_less dest: bit_imp_le_length)
    done
  done

lemma byte2: "push_bit 4 ((push_bit 4 (a AND 3) OR drop_bit 4 b) AND 15) OR drop_bit 2 (push_bit 2 (b AND 15) OR drop_bit 6 c) = (b::byte)"
  unfolding m3 m15 m63
  apply (rule bit_word_eqI)
  subgoal for n
    apply (cases "2 \<le> n"; cases "4 \<le> n"; cases "6 \<le> n")
    apply (auto simp: bit_simps sub2 not_less dest: bit_imp_le_length)
    done
  done

lemma byte3: "push_bit 6 ((push_bit 2 (b AND 15) OR drop_bit 6 c) AND 3) OR (c AND 63) = (c::byte)"
  unfolding m3 m15 m63
  apply (rule bit_word_eqI)
  subgoal for n
    apply (cases "2 \<le> n"; cases "4 \<le> n"; cases "6 \<le> n")
    apply (auto simp: bit_simps sub2 not_less dest: bit_imp_le_length)
    done
  done

lemma byte1_last: "push_bit 2 (drop_bit 2 a) OR drop_bit 4 (push_bit 4 (a AND 3)) = (a::byte)"
  using byte1 [of a 0] by simp

lemma byte2_last: "push_bit 4 ((push_bit 4 (a AND 3) OR drop_bit 4 b) AND 15) OR drop_bit 2 (push_bit 2 (b AND 15)) = (b::byte)"
  using byte2 [of a b 0] by simp

lemma six_bits: "x AND mask 6 = x \<Longrightarrow> unat (x::byte) < 64"
proof -
  assume a: "x AND mask 6 = x"
  have "x AND mask 6 < 2 ^ 6" by (rule and_mask_less') simp
  then have "x < 64" using a by simp
  then show ?thesis by (simp add: word_less_nat_alt)
qed

lemma six1: "unat (drop_bit 2 (a::byte)) < 64"
  apply (rule six_bits, rule bit_word_eqI)
  apply (auto simp: bit_simps dest: bit_imp_le_length)
  done
lemma six2: "unat (push_bit 4 ((a::byte) AND 3) OR drop_bit 4 (b::byte)) < 64"
  unfolding m3 m15 m63
  apply (rule six_bits, rule bit_word_eqI)
  apply (auto simp: bit_simps dest: bit_imp_le_length)
  done
lemma six2_last: "unat (push_bit 4 ((a::byte) AND 3)) < 64"
  using six2[of a 0] by simp
lemma six3: "unat (push_bit 2 ((b::byte) AND 15) OR drop_bit 6 (c::byte)) < 64"
  unfolding m3 m15 m63
  apply (rule six_bits, rule bit_word_eqI)
  apply (auto simp: bit_simps dest: bit_imp_le_length)
  done
lemma six3_last: "unat (push_bit 2 ((b::byte) AND 15)) < 64"
  using six3[of b 0] by simp
lemma six4: "unat ((c::byte) AND 63) < 64"
  unfolding m3 m15 m63
  apply (rule six_bits, rule bit_word_eqI)
  apply (auto simp: bit_simps dest: bit_imp_le_length)
  done

lemmas sextet_bounds = six1 six2 six2_last six3 six3_last six4

lemma below64:
  "n < 64 \<Longrightarrow> n \<in> set [0..<64]" by simp

lemma table_cases:
  assumes "n < (64::nat)"
  shows "table_a2b_base64 (of_char (table_b2a_base64 ! n)) = of_nat n
       \<and> of_char (table_b2a_base64 ! n) \<noteq> BASE64_PAD
       \<and> is_ascii (table_b2a_base64 ! n)
       \<and> \<not> isspace (table_b2a_base64 ! n)"
  using below64 [OF assms]
  apply (simp only: upt_conv_Cons upt_conv_Nil)
  apply (simp add: table_b2a_base64_def)
  apply (elim disjE; simp add: table_a2b_base64_def BASE64_PAD_def is_ascii_def isspace_def)
  done

lemma b2a_props:
  assumes "unat v < 64"
  shows "table_a2b_base64 (of_char (b2a v)) = v"
    and "of_char (b2a v) \<noteq> BASE64_PAD"
    and "is_ascii (b2a v)"
    and "\<not> isspace (b2a v)"
  using table_cases [OF assms] by (simp_all add: b2a_def)

lemma not_ge_64: "unat (v::byte) < 64 \<Longrightarrow> \<not> 64 \<le> v"
  by (simp add: word_le_nat_alt)

lemma a2b_loop_sextet:
  assumes "unat v < 64"
  shows "a2b_loop 0 leftchar pads bin_data (of_char (b2a v) # rest) =
           a2b_loop 1 v 0 bin_data rest"
    and "a2b_loop 1 leftchar pads bin_data (of_char (b2a v) # rest) =
           a2b_loop 2 (v AND 0x0f) 0 (bin_data @ [push_bit 2 leftchar OR drop_bit 4 v]) rest"
    and "a2b_loop 2 leftchar pads bin_data (of_char (b2a v) # rest) =
           a2b_loop 3 (v AND 0x03) 0 (bin_data @ [push_bit 4 leftchar OR drop_bit 2 v]) rest"
    and "a2b_loop 3 leftchar pads bin_data (of_char (b2a v) # rest) =
           a2b_loop 0 0 0 (bin_data @ [push_bit 6 leftchar OR v]) rest"
  using b2a_props(1,2) [OF assms] not_ge_64 [OF assms]
  by (simp_all add: Let_def)

lemma pad_char: "of_char CHR ''='' = BASE64_PAD"
  by (simp add: BASE64_PAD_def)

lemma a2b_loop_pad:
  "a2b_loop 2 leftchar 0 bin_data (BASE64_PAD # rest) = a2b_loop 2 leftchar 1 bin_data rest"
  "a2b_loop 2 leftchar 1 bin_data (BASE64_PAD # rest) = Goto_done bin_data"
  "a2b_loop 3 leftchar 0 bin_data (BASE64_PAD # rest) = Goto_done bin_data"
  by simp_all

lemma a2b_loop_b64encode:
  "a2b_loop 0 leftchar pads bin_data (map of_char (b64encode B)) =
     (if length B mod 3 = 0 then Loop_end 0 (bin_data @ B) else Goto_done (bin_data @ B))"
proof (induction B arbitrary: leftchar pads bin_data rule: b64encode.induct)
  case 1
  show ?case by simp
next
  case (2 a)
  have "a2b_loop 0 leftchar pads bin_data (map of_char (b64encode [a])) =
        Goto_done (bin_data @ [a])"
    by (simp only: b64encode.simps list.map a2b_loop_sextet sextet_bounds pad_char
          a2b_loop_pad byte1_last)
  then show ?case by simp
next
  case (3 a b)
  have "a2b_loop 0 leftchar pads bin_data (map of_char (b64encode [a, b])) =
        Goto_done ((bin_data @ [a]) @ [b])"
    by (simp only: b64encode.simps list.map a2b_loop_sextet sextet_bounds pad_char
          a2b_loop_pad byte1 byte2_last)
  then show ?case by simp
next
  case (4 a b c rest)
  have "a2b_loop 0 leftchar pads bin_data (map of_char (b64encode (a # b # c # rest))) =
        a2b_loop 0 0 0 (((bin_data @ [a]) @ [b]) @ [c]) (map of_char (b64encode rest))"
    by (simp only: b64encode.simps list.map map_append append.simps a2b_loop_sextet
          sextet_bounds byte1 byte2 byte3)
  then show ?case
    by (simp add: "4.IH")
qed

lemma pad_ascii: "is_ascii CHR ''=''"
  by (simp add: is_ascii_def)

lemma pad_not_space: "\<not> isspace CHR ''=''"
  by (simp add: isspace_def)

lemma b64encode_ascii: "list_all is_ascii (b64encode B)"
  by (induction B rule: b64encode.induct)
     (simp_all only: b64encode.simps list.pred_inject list_all_append b2a_props(3) sextet_bounds
        pad_ascii simp_thms)

lemma a2b_base64_b64encode: "a2b_base64 (map of_char (b64encode B)) = Inr B"
  by (simp add: a2b_base64_def a2b_loop_b64encode)

lemma b64decode_b64encode: "b64decode (b64encode B) = Inr B"
  by (simp add: b64decode_def bytes_from_decode_data_def b64encode_ascii a2b_base64_b64encode)

subsection \<open>Stripping\<close>

lemma dropWhile_none: "\<forall>c \<in> set s. \<not> P c \<Longrightarrow> dropWhile P s = s"
  by (cases s) simp_all

lemma strip_no_space: "\<forall>c \<in> set s. \<not> isspace c \<Longrightarrow> strip s = s"
  by (simp add: strip_def dropWhile_none)

lemma b64encode_no_space: "\<forall>c \<in> set (b64encode B). \<not> isspace c"
  by (induction B rule: b64encode.induct)
     (simp_all only: b64encode.simps set_simps set_append ball_simps ball_Un b2a_props(4) sextet_bounds
        pad_not_space simp_thms)

lemma strip_b64encode: "strip (b64encode B) = b64encode B"
  by (rule strip_no_space) (rule b64encode_no_space)

lemma strip_all_space:
  assumes "\<forall>c \<in> set s. isspace c"
  shows "strip s = []"
proof -
  have d: "dropWhile isspace s = []"
    using assms by simp
  show ?thesis
    by (simp only: strip_def d rev.simps dropWhile.simps)
qed

lemma strip_padded:
  assumes w1: "\<forall>c \<in> set w1. isspace c" and w2: "\<forall>c \<in> set w2. isspace c"
  shows "strip (w1 @ s @ w2) = strip s"
proof (cases "\<forall>c \<in> set s. isspace c")
  case True
  then have "\<forall>c \<in> set (w1 @ s @ w2). isspace c"
    using w1 w2 by auto
  then have "strip (w1 @ s @ w2) = []"
    by (rule strip_all_space)
  then show ?thesis
    using True by (simp only: strip_all_space)
next
  case False
  then obtain x where x: "x \<in> set s" "\<not> isspace x" by blast
  have "dropWhile isspace (w1 @ s @ w2) = dropWhile isspace (s @ w2)"
    by (rule dropWhile_append2) (use w1 in simp)
  also have "\<dots> = dropWhile isspace s @ w2"
    using x by (rule dropWhile_append1)
  finally have l: "dropWhile isspace (w1 @ s @ w2) = dropWhile isspace s @ w2" .
  have "dropWhile isspace (rev w2 @ rev (dropWhile isspace s))
      = dropWhile isspace (rev (dropWhile isspace s))"
    by (rule dropWhile_append2) (use w2 in simp)
  then show ?thesis
    by (simp add: strip_def l)
qed

subsection \<open>The runs of \<^verbatim>\<open>decode_base64_file\<close>, step by step\<close>

lemma run_read_error:
  assumes "read_text w input_file = Inl e"
  shows "decode_base64_file w input_file output_file =
           (print_stderr w (''Error: '' @ str_exn e), SystemExit 1)"
  using assms by (simp add: decode_base64_file_def try_body_def)

lemma run_decode_error:
  assumes "read_text w input_file = Inr text" and "b64decode (strip text) = Inl e"
  shows "decode_base64_file w input_file output_file =
           (print_stderr w (''Error: '' @ str_exn e), SystemExit 1)"
  using assms by (simp add: decode_base64_file_def try_body_def)

lemma run_open_error:
  assumes "read_text w input_file = Inr text" and "b64decode (strip text) = Inr decoded"
    and "open_wb w (effective_output input_file output_file) = Some e"
  shows "decode_base64_file w input_file output_file =
           (print_stderr w (''Error: '' @ str_exn e), SystemExit 1)"
  using assms by (simp add: decode_base64_file_def try_body_def write_file_def)

lemma run_write_error:
  assumes "read_text w input_file = Inr text" and "b64decode (strip text) = Inr decoded"
    and "open_wb w (effective_output input_file output_file) = None"
    and "write_fault w (effective_output input_file output_file) = Some (e, n)"
  shows "decode_base64_file w input_file output_file =
           (print_stderr
              (w\<lparr>files := (files w)(effective_output input_file output_file \<mapsto> take n decoded)\<rparr>)
              (''Error: '' @ str_exn e), SystemExit 1)"
  using assms by (simp add: decode_base64_file_def try_body_def write_file_def)

lemma run_written:
  assumes "read_text w input_file = Inr text" and "b64decode (strip text) = Inr decoded"
    and "open_wb w (effective_output input_file output_file) = None"
    and "write_fault w (effective_output input_file output_file) = None"
  shows "files (fst (decode_base64_file w input_file output_file)) =
           (files w)(effective_output input_file output_file \<mapsto> decoded)"
  using assms
  by (simp add: decode_base64_file_def try_body_def write_file_def print_stdout_def
        print_stderr_def Let_def split: option.splits)

lemma run_print_error:
  assumes "read_text w input_file = Inr text" and "b64decode (strip text) = Inr decoded"
    and "open_wb w (effective_output input_file output_file) = None"
    and "write_fault w (effective_output input_file output_file) = None"
    and "stdout_fault w
           (''Decoded '' @ input_file @ '' to '' @ effective_output input_file output_file)
         = Some e"
  shows "decode_base64_file w input_file output_file =
           (print_stderr
              (w\<lparr>files := (files w)(effective_output input_file output_file \<mapsto> decoded)\<rparr>)
              (''Error: '' @ str_exn e), SystemExit 1)"
  using assms
  by (simp add: decode_base64_file_def try_body_def write_file_def print_stdout_def Let_def)

lemma run_success:
  assumes "read_text w input_file = Inr text" and "b64decode (strip text) = Inr decoded"
    and "open_wb w (effective_output input_file output_file) = None"
    and "write_fault w (effective_output input_file output_file) = None"
    and "stdout_fault w
           (''Decoded '' @ input_file @ '' to '' @ effective_output input_file output_file)
         = None"
  shows "decode_base64_file w input_file output_file =
           (w\<lparr>files := (files w)(effective_output input_file output_file \<mapsto> decoded),
              stdout := stdout w @ ''Decoded '' @ input_file @ '' to ''
                          @ effective_output input_file output_file @ [newline]\<rparr>,
            Returned)"
  using assms
  by (simp add: decode_base64_file_def try_body_def write_file_def print_stdout_def Let_def)

lemma hello_encoded:
  "b64encode (map of_char ''Hello, World!'') = ''SGVsbG8sIFdvcmxkIQ==''"
  by (simp add: b2a_def table_b2a_base64_def)

subsection \<open>Characters the decoding loop skips, and content without padding\<close>

lemma unat_of_char: "unat (of_char c :: byte) = of_char c"
proof -
  have "unat (of_nat (of_char c) :: byte) = of_char c mod 256"
    by (simp add: unat_of_nat)
  then show ?thesis
    by (simp add: of_nat_of_char)
qed

lemma table_valid_iff:
  "table_a2b_base64 b < 64 \<longleftrightarrow>
     (65 \<le> unat b \<and> unat b \<le> 90) \<or> (97 \<le> unat b \<and> unat b \<le> 122) \<or>
     (48 \<le> unat b \<and> unat b \<le> 57) \<or> unat b = 43 \<or> unat b = 47 \<or> unat b = 61"
  unfolding table_a2b_base64_def
  by unat_arith


lemma byte_pad_iff: "((of_char c :: byte) = BASE64_PAD) = (c = CHR ''='')"
proof -
  have "((of_char c :: byte) = 61) = (unat (of_char c :: byte) = unat (61 :: byte))"
    by (simp only: word_unat_eq_iff)
  also have "\<dots> = ((of_char c :: nat) = of_char CHR ''='')"
    by (simp add: unat_of_char)
  also have "\<dots> = (c = CHR ''='')"
    by (rule of_char_eq_iff)
  finally show ?thesis
    by (simp only: BASE64_PAD_def)
qed

lemma alphabet_iff_table:
  "b64_alphabet c \<or> c = CHR ''='' \<longleftrightarrow>
     of_char c = BASE64_PAD \<or> table_a2b_base64 (of_char c) < 64"
proof -
  have n: "(of_char c = (61::nat)) = (c = CHR ''='')"
    using of_char_eq_iff [of c "CHR ''=''", where ?'a = nat] by simp
  show ?thesis
    unfolding byte_pad_iff table_valid_iff unat_of_char b64_alphabet_def Let_def n by blast
qed

lemma a2b_loop_discard:
  "a2b_loop quad_pos leftchar pads bin_data
     (filter (\<lambda>b. b = BASE64_PAD \<or> table_a2b_base64 b < 64) data)
   = a2b_loop quad_pos leftchar pads bin_data data"
  by (induction data arbitrary: quad_pos leftchar pads bin_data)
     (simp_all add: Let_def not_less)

lemma b64decode_discard:
  assumes "list_all is_ascii s"
  shows "b64decode (filter (\<lambda>c. b64_alphabet c \<or> c = CHR ''='') s) = b64decode s"
proof -
  have a: "list_all is_ascii (filter (\<lambda>c. b64_alphabet c \<or> c = CHR ''='') s)"
    using assms by (simp add: list_all_iff)
  have m: "map of_char (filter (\<lambda>c. b64_alphabet c \<or> c = CHR ''='') s)
         = filter (\<lambda>b. b = BASE64_PAD \<or> table_a2b_base64 b < 64) (map of_char s)"
    by (simp add: filter_map comp_def alphabet_iff_table)
  show ?thesis
    using assms a
    by (simp add: b64decode_def bytes_from_decode_data_def a2b_base64_def m a2b_loop_discard)
qed

lemma a2b_loop_no_pad:
  assumes "BASE64_PAD \<notin> set data" and "quad_pos < 4"
  shows "\<exists>out. a2b_loop quad_pos leftchar pads bin_data data =
           Loop_end ((quad_pos + length (filter (\<lambda>b. table_a2b_base64 b < 64) data)) mod 4) out"
  using assms
proof (induction data arbitrary: quad_pos leftchar pads bin_data)
  case Nil
  then show ?case by simp
next
  case (Cons c rest)
  from Cons.prems have np: "c \<noteq> BASE64_PAD" "BASE64_PAD \<notin> set rest" by auto
  show ?case
  proof (cases "table_a2b_base64 c < 64")
    case False
    then have ge: "64 \<le> table_a2b_base64 c" by (simp add: not_less)
    show ?thesis
      using Cons.IH [OF np(2) Cons.prems(2)] np(1) False ge by (simp add: Let_def)
  next
    case True
    then have ge: "\<not> 64 \<le> table_a2b_base64 c" by (simp add: not_le)
    from Cons.prems(2) consider "quad_pos = 0" | "quad_pos = 1" | "quad_pos = 2" | "quad_pos = 3"
      by arith
    then show ?thesis
    proof cases
      case 1
      then show ?thesis
        using Cons.IH [OF np(2), of 1] np(1) True ge by (simp add: Let_def)
    next
      case 2
      then show ?thesis
        using Cons.IH [OF np(2), of 2] np(1) True ge by (simp add: Let_def)
    next
      case 3
      then show ?thesis
        using Cons.IH [OF np(2), of 3] np(1) True ge by (simp add: Let_def)
    next
      case 4
      then show ?thesis
        using Cons.IH [OF np(2), of 0] np(1) True ge by (simp add: Let_def)
    qed
  qed
qed

lemma a2b_base64_no_pad:
  assumes "BASE64_PAD \<notin> set data"
    and "length (filter (\<lambda>b. table_a2b_base64 b < 64) data) mod 4 \<noteq> 0"
  shows "\<exists>m. a2b_base64 data = Inl (BinasciiError m)"
proof -
  obtain out where
    "a2b_loop 0 0 0 [] data =
       Loop_end ((0 + length (filter (\<lambda>b. table_a2b_base64 b < 64) data)) mod 4) out"
    using a2b_loop_no_pad [OF assms(1), of 0 0 0 "[]"] by auto
  then show ?thesis
    using assms(2) by (simp add: a2b_base64_def)
qed

lemma filter_alphabet_bytes:
  assumes "CHR ''='' \<notin> set s"
  shows "length (filter (\<lambda>b. table_a2b_base64 b < 64) (map of_char s))
       = length (filter b64_alphabet s)"
proof -
  have "\<And>c. c \<in> set s \<Longrightarrow> (table_a2b_base64 (of_char c) < 64) = b64_alphabet c"
  proof -
    fix c assume "c \<in> set s"
    then have ne: "c \<noteq> CHR ''=''" using assms by auto
    then have "of_char c \<noteq> BASE64_PAD"
      by (simp add: byte_pad_iff)
    then show "(table_a2b_base64 (of_char c) < 64) = b64_alphabet c"
      using alphabet_iff_table [of c] ne by simp
  qed
  then have "filter (\<lambda>c. table_a2b_base64 (of_char c) < 64) s = filter b64_alphabet s"
    by (simp cong: filter_cong)
  then show ?thesis
    by (simp add: filter_map comp_def)
qed

lemma b64decode_no_pad:
  assumes "CHR ''='' \<notin> set s" and "length (filter b64_alphabet s) mod 4 \<noteq> 0"
  shows "\<exists>e. b64decode s = Inl e"
proof (cases "list_all is_ascii s")
  case False
  then show ?thesis
    by (simp add: b64decode_def bytes_from_decode_data_def)
next
  case True
  have "BASE64_PAD \<notin> set (map of_char s)"
  proof
    assume "BASE64_PAD \<in> set (map of_char s)"
    then obtain c where "c \<in> set s" "of_char c = BASE64_PAD" by auto
    then have "c = CHR ''=''"
      by (simp add: byte_pad_iff)
    then show False using \<open>c \<in> set s\<close> assms(1) by simp
  qed
  moreover have "length (filter (\<lambda>b. table_a2b_base64 b < 64) (map of_char s)) mod 4 \<noteq> 0"
    by (simp only: filter_alphabet_bytes [OF assms(1)] assms(2) simp_thms)
  ultimately obtain m where "a2b_base64 (map of_char s) = Inl (BinasciiError m)"
    using a2b_base64_no_pad by blast
  then show ?thesis
    using True by (simp add: b64decode_def bytes_from_decode_data_def)
qed

lemma b64decode_non_ascii:
  assumes "\<not> list_all is_ascii s"
  shows "b64decode s = Inl (ValueError ''string argument should contain only ASCII characters'')"
  using assms by (simp add: b64decode_def bytes_from_decode_data_def)

section \<open>The claims\<close>

text \<open>
  C1 (round trip). For every byte string \<open>B\<close>, decoding the stripped standard base64
  encoding of \<open>B\<close> gives exactly \<open>B\<close>: the decode step is a left inverse of the
  encoding. A run whose input file holds the encoding, and whose output file can be
  written, leaves exactly \<open>B\<close> in the output file.
\<close>

theorem roundtrip:
  assumes "read_text w input_file = Inr (b64encode B)"
    and "open_wb w (effective_output input_file output_file) = None"
    and "write_fault w (effective_output input_file output_file) = None"
  shows "b64decode (strip (b64encode B)) = Inr B
       \<and> files (fst (decode_base64_file w input_file output_file))
            (effective_output input_file output_file) = Some B"
proof -
  have d: "b64decode (strip (b64encode B)) = Inr B"
    by (simp only: strip_b64encode b64decode_b64encode)
  show ?thesis
    using d run_written [OF assms(1) d assms(2,3)] by simp
qed

theorem roundtrip_witness:
  "read_text (example_world ''in.b64'' ''SGVsbG8sIFdvcmxkIQ=='') ''in.b64''
     = Inr (b64encode (map of_char ''Hello, World!''))
   \<and> open_wb (example_world ''in.b64'' ''SGVsbG8sIFdvcmxkIQ=='')
       (effective_output ''in.b64'' None) = None
   \<and> write_fault (example_world ''in.b64'' ''SGVsbG8sIFdvcmxkIQ=='')
       (effective_output ''in.b64'' None) = None
   \<and> b64decode (strip (b64encode (map of_char ''Hello, World!'')))
       = Inr (map of_char ''Hello, World!'')
   \<and> files (fst (decode_base64_file (example_world ''in.b64'' ''SGVsbG8sIFdvcmxkIQ=='')
                   ''in.b64'' None)) ''in.b64.decoded''
       = Some (map of_char ''Hello, World!'')"
proof -
  let ?w = "example_world ''in.b64'' ''SGVsbG8sIFdvcmxkIQ==''"
  have r: "read_text ?w ''in.b64'' = Inr (b64encode (map of_char ''Hello, World!''))"
    by (simp only: hello_encoded) (simp add: example_world_def)
  have o: "open_wb ?w (effective_output ''in.b64'' None) = None"
    by (simp add: example_world_def)
  have f: "write_fault ?w (effective_output ''in.b64'' None) = None"
    by (simp add: example_world_def)
  have p: "effective_output ''in.b64'' None = ''in.b64.decoded''"
    by (simp add: effective_output_def)
  show ?thesis
    using r o f roundtrip [OF r o f] by (simp only: p simp_thms)
qed

text \<open>
  C2, as stated, fails: the stripped content \<^verbatim>\<open>QUJD!\<close> contains \<^verbatim>\<open>!\<close>, which is
  neither in the alphabet nor the pad, and yet the decode step produces the bytes
  \<^verbatim>\<open>ABC\<close> and the run writes them and returns normally.
\<close>

theorem nonalphabet_counterexample:
  "\<not> b64_alphabet CHR ''!'' \<and> CHR ''!'' \<noteq> CHR ''='' \<and> CHR ''!'' \<in> set (strip ''QUJD!'')
   \<and> b64decode (strip ''QUJD!'') = Inr [65, 66, 67]
   \<and> snd (decode_base64_file (example_world ''in.b64'' ''QUJD!'') ''in.b64'' None) = Returned
   \<and> files (fst (decode_base64_file (example_world ''in.b64'' ''QUJD!'') ''in.b64'' None))
        ''in.b64.decoded'' = Some [65, 66, 67]"
  by (simp add: b64_alphabet_def strip_def isspace_def b64decode_def bytes_from_decode_data_def
        is_ascii_def a2b_base64_def table_a2b_base64_def BASE64_PAD_def decode_base64_file_def
        try_body_def example_world_def effective_output_def write_file_def print_stdout_def)

text \<open>
  C2, amended. The decode step fails on a character outside the alphabet only when that
  character is not ASCII: then the run prints the \<^verbatim>\<open>ValueError\<close> message on standard
  error, exits with status 1 and leaves the files alone. ASCII characters outside the
  alphabet are discarded: the stripped content decodes exactly as the same content with
  every character other than the alphabet and \<^verbatim>\<open>=\<close> removed.
\<close>

theorem non_ascii_fails_others_discarded:
  assumes "read_text w input_file = Inr text"
  shows "(\<not> list_all is_ascii (strip text) \<longrightarrow>
            decode_base64_file w input_file output_file =
              (print_stderr w
                 (''Error: '' @ ''string argument should contain only ASCII characters''),
               SystemExit 1))
       \<and> (list_all is_ascii (strip text) \<longrightarrow>
            b64decode (strip text) =
              b64decode (filter (\<lambda>c. b64_alphabet c \<or> c = CHR ''='') (strip text)))"
proof (intro conjI impI)
  assume "\<not> list_all is_ascii (strip text)"
  then have "b64decode (strip text) =
      Inl (ValueError ''string argument should contain only ASCII characters'')"
    by (rule b64decode_non_ascii)
  from run_decode_error [OF assms this]
  show "decode_base64_file w input_file output_file =
          (print_stderr w
             (''Error: '' @ ''string argument should contain only ASCII characters''),
           SystemExit 1)"
    by simp
next
  assume "list_all is_ascii (strip text)"
  then show "b64decode (strip text) =
      b64decode (filter (\<lambda>c. b64_alphabet c \<or> c = CHR ''='') (strip text))"
    by (simp only: b64decode_discard)
qed

theorem non_ascii_fails_others_discarded_witness:
  "read_text (example_world ''in.b64'' [CHR ''Q'', CHR 0xE9]) ''in.b64''
     = Inr [CHR ''Q'', CHR 0xE9]
   \<and> \<not> list_all is_ascii (strip [CHR ''Q'', CHR 0xE9])
   \<and> decode_base64_file (example_world ''in.b64'' [CHR ''Q'', CHR 0xE9]) ''in.b64'' None
       = (print_stderr (example_world ''in.b64'' [CHR ''Q'', CHR 0xE9])
            ''Error: string argument should contain only ASCII characters'', SystemExit 1)
   \<and> read_text (example_world ''in.b64'' ''QU-JD'') ''in.b64'' = Inr ''QU-JD''
   \<and> list_all is_ascii (strip ''QU-JD'')
   \<and> filter (\<lambda>c. b64_alphabet c \<or> c = CHR ''='') (strip ''QU-JD'') = ''QUJD''
   \<and> b64decode (strip ''QU-JD'') = b64decode ''QUJD''"
proof -
  have r1: "read_text (example_world ''in.b64'' [CHR ''Q'', CHR 0xE9]) ''in.b64''
     = Inr [CHR ''Q'', CHR 0xE9]"
    by (simp add: example_world_def)
  have n1: "\<not> list_all is_ascii (strip [CHR ''Q'', CHR 0xE9])"
    by (simp add: strip_def isspace_def is_ascii_def)
  have r2: "read_text (example_world ''in.b64'' ''QU-JD'') ''in.b64'' = Inr ''QU-JD''"
    by (simp add: example_world_def)
  have a2: "list_all is_ascii (strip ''QU-JD'')"
    by (simp add: strip_def isspace_def is_ascii_def)
  have f2: "filter (\<lambda>c. b64_alphabet c \<or> c = CHR ''='') (strip ''QU-JD'') = ''QUJD''"
    by (simp add: strip_def isspace_def b64_alphabet_def)
  show ?thesis
    using r1 n1 r2 a2 f2
      non_ascii_fails_others_discarded [OF r1, of None]
      non_ascii_fails_others_discarded [OF r2, of None]
    by simp
qed

text \<open>
  C3, as stated, fails: for a file whose content strips to the empty string (a space and a
  newline), the decode and write steps are performed: the output file, which did not
  exist, holds the empty byte string afterwards and the function returns normally.
\<close>

theorem empty_content_counterexample:
  "strip [CHR '' '', newline] = []
   \<and> files (example_world ''in.b64'' [CHR '' '', newline]) ''in.b64.decoded'' = None
   \<and> files (fst (decode_base64_file (example_world ''in.b64'' [CHR '' '', newline])
                   ''in.b64'' None)) ''in.b64.decoded'' = Some []
   \<and> snd (decode_base64_file (example_world ''in.b64'' [CHR '' '', newline])
             ''in.b64'' None) = Returned"
  by (simp add: newline_def strip_def isspace_def b64decode_def bytes_from_decode_data_def
        is_ascii_def a2b_base64_def decode_base64_file_def
        try_body_def example_world_def effective_output_def write_file_def print_stdout_def)

text \<open>
  C3, amended. For an input file whose content strips to the empty string, the decode
  step is performed and yields the empty byte string, and (when the output file can be
  written) the run writes an empty output file; when the confirmation can be printed as
  well, the run prints it and returns normally.
\<close>

theorem empty_content_written:
  assumes "read_text w input_file = Inr text" and "strip text = []"
    and "open_wb w (effective_output input_file output_file) = None"
    and "write_fault w (effective_output input_file output_file) = None"
  shows "b64decode (strip text) = Inr []
       \<and> files (fst (decode_base64_file w input_file output_file))
           = (files w)(effective_output input_file output_file \<mapsto> [])
       \<and> (stdout_fault w
             (''Decoded '' @ input_file @ '' to '' @ effective_output input_file output_file)
           = None \<longrightarrow>
           decode_base64_file w input_file output_file =
             (w\<lparr>files := (files w)(effective_output input_file output_file \<mapsto> []),
                stdout := stdout w @ ''Decoded '' @ input_file @ '' to ''
                            @ effective_output input_file output_file @ [newline]\<rparr>,
              Returned))"
proof -
  have d: "b64decode (strip text) = Inr []"
    by (simp add: assms(2) b64decode_def bytes_from_decode_data_def a2b_base64_def)
  show ?thesis
    using d run_written [OF assms(1) d assms(3,4)] run_success [OF assms(1) d assms(3,4)]
    by simp
qed

theorem empty_content_written_witness:
  "read_text (example_world ''empty.b64'' [newline, newline]) ''empty.b64''
     = Inr [newline, newline]
   \<and> strip [newline, newline] = []
   \<and> open_wb (example_world ''empty.b64'' [newline, newline])
       (effective_output ''empty.b64'' (Some ''out.bin'')) = None
   \<and> write_fault (example_world ''empty.b64'' [newline, newline])
       (effective_output ''empty.b64'' (Some ''out.bin'')) = None
   \<and> stdout_fault (example_world ''empty.b64'' [newline, newline])
       (''Decoded '' @ ''empty.b64'' @ '' to '' @ effective_output ''empty.b64'' (Some ''out.bin''))
       = None
   \<and> b64decode (strip [newline, newline]) = Inr []
   \<and> snd (decode_base64_file (example_world ''empty.b64'' [newline, newline])
            ''empty.b64'' (Some ''out.bin'')) = Returned
   \<and> files (fst (decode_base64_file (example_world ''empty.b64'' [newline, newline])
            ''empty.b64'' (Some ''out.bin''))) ''out.bin'' = Some []"
proof -
  let ?w = "example_world ''empty.b64'' [newline, newline]"
  have r: "read_text ?w ''empty.b64'' = Inr [newline, newline]"
    by (simp add: example_world_def)
  have s: "strip [newline, newline] = []"
    by (simp add: strip_def isspace_def newline_def)
  have o: "open_wb ?w (effective_output ''empty.b64'' (Some ''out.bin'')) = None"
    by (simp add: example_world_def)
  have f: "write_fault ?w (effective_output ''empty.b64'' (Some ''out.bin'')) = None"
    by (simp add: example_world_def)
  have q: "stdout_fault ?w
       (''Decoded '' @ ''empty.b64'' @ '' to '' @ effective_output ''empty.b64'' (Some ''out.bin''))
       = None"
    by (simp add: example_world_def)
  have p: "effective_output ''empty.b64'' (Some ''out.bin'') = ''out.bin''"
    by (simp add: effective_output_def)
  show ?thesis
    using r s o f q empty_content_written [OF r s o f]
    by (simp add: p)
qed

text \<open>
  C4, as stated, fails: the stripped content \<^verbatim>\<open>QQ===\<close> has length 5, not a multiple
  of 4, and the run decodes it to the byte \<^verbatim>\<open>A\<close>, writes it and ends with status 0.
\<close>

theorem length_counterexample:
  "length (strip ''QQ==='') mod 4 \<noteq> 0
   \<and> b64decode (strip ''QQ==='') = Inr [65]
   \<and> main (example_world ''in.b64'' ''QQ==='') ''in.b64'' None
       = (fst (decode_base64_file (example_world ''in.b64'' ''QQ==='') ''in.b64'' None), 0)
   \<and> files (fst (main (example_world ''in.b64'' ''QQ==='') ''in.b64'' None))
        ''in.b64.decoded'' = Some [65]"
  by (simp add: strip_def isspace_def b64decode_def bytes_from_decode_data_def main_def
        is_ascii_def a2b_base64_def table_a2b_base64_def BASE64_PAD_def decode_base64_file_def
        try_body_def example_world_def effective_output_def write_file_def print_stdout_def)

text \<open>
  C4, amended. For every input whose stripped content contains no \<^verbatim>\<open>=\<close> and whose
  number of alphabet characters is not a multiple of 4 (in particular content made of
  alphabet characters only whose length is not a multiple of 4, such as \<^verbatim>\<open>QQ\<close>), the
  decode step fails, the run prints \<^verbatim>\<open>Error: \<close> and the message on standard error and
  ends with status 1; the world is otherwise unchanged, so the write is not reached.
\<close>

theorem open_quad_fails:
  assumes "read_text w input_file = Inr text"
    and "CHR ''='' \<notin> set (strip text)"
    and "length (filter b64_alphabet (strip text)) mod 4 \<noteq> 0"
  shows "\<exists>e. b64decode (strip text) = Inl e
           \<and> decode_base64_file w input_file output_file =
               (print_stderr w (''Error: '' @ str_exn e), SystemExit 1)
           \<and> main w input_file output_file =
               (print_stderr w (''Error: '' @ str_exn e), 1)"
proof -
  obtain e where e: "b64decode (strip text) = Inl e"
    using b64decode_no_pad [OF assms(2,3)] by blast
  have "decode_base64_file w input_file output_file =
          (print_stderr w (''Error: '' @ str_exn e), SystemExit 1)"
    by (rule run_decode_error [OF assms(1) e])
  then show ?thesis
    using e by (simp add: main_def)
qed

theorem open_quad_fails_witness:
  "read_text (example_world ''in.b64'' ''QQ'') ''in.b64'' = Inr ''QQ''
   \<and> CHR ''='' \<notin> set (strip ''QQ'')
   \<and> length (filter b64_alphabet (strip ''QQ'')) mod 4 \<noteq> 0
   \<and> (\<exists>e. b64decode (strip ''QQ'') = Inl e
         \<and> decode_base64_file (example_world ''in.b64'' ''QQ'') ''in.b64'' None =
             (print_stderr (example_world ''in.b64'' ''QQ'') (''Error: '' @ str_exn e),
              SystemExit 1)
         \<and> main (example_world ''in.b64'' ''QQ'') ''in.b64'' None =
             (print_stderr (example_world ''in.b64'' ''QQ'') (''Error: '' @ str_exn e), 1))
   \<and> files (fst (main (example_world ''in.b64'' ''QQ'') ''in.b64'' None)) ''in.b64.decoded''
       = None"
proof -
  let ?w = "example_world ''in.b64'' ''QQ''"
  have r: "read_text ?w ''in.b64'' = Inr ''QQ''"
    by (simp add: example_world_def)
  have s: "strip ''QQ'' = ''QQ''"
    by (simp add: strip_def isspace_def)
  have n: "CHR ''='' \<notin> set (strip ''QQ'')"
    by (simp add: s)
  have l: "length (filter b64_alphabet (strip ''QQ'')) mod 4 \<noteq> 0"
    by (simp add: s b64_alphabet_def)
  from open_quad_fails [OF r n l, of None]
  obtain e where e: "b64decode (strip ''QQ'') = Inl e"
      "decode_base64_file ?w ''in.b64'' None =
         (print_stderr ?w (''Error: '' @ str_exn e), SystemExit 1)"
      "main ?w ''in.b64'' None = (print_stderr ?w (''Error: '' @ str_exn e), 1)"
    by blast
  have "files (fst (main ?w ''in.b64'' None)) ''in.b64.decoded'' = None"
    unfolding e(3) by (simp add: print_stderr_def example_world_def)
  then show ?thesis
    using r n l e by blast
qed

text \<open>
  C5 (default output naming). With no output path (\<^verbatim>\<open>output_file\<close> is \<^verbatim>\<open>None\<close>), a run
  that reads, decodes and writes without fault stores the decoded bytes at exactly the
  path \<^verbatim>\<open>input_file + '.decoded'\<close>: the files afterwards are the files before with that
  one path holding the decoded bytes. When the confirmation can be printed as well, the
  function returns normally.
\<close>

theorem default_output_path:
  assumes "read_text w input_file = Inr text"
    and "b64decode (strip text) = Inr decoded"
    and "open_wb w (input_file @ ''.decoded'') = None"
    and "write_fault w (input_file @ ''.decoded'') = None"
  shows "files (fst (decode_base64_file w input_file None))
           = (files w)(input_file @ ''.decoded'' \<mapsto> decoded)
       \<and> (stdout_fault w (''Decoded '' @ input_file @ '' to '' @ input_file @ ''.decoded'')
             = None
           \<longrightarrow> snd (decode_base64_file w input_file None) = Returned)"
proof -
  have p: "effective_output input_file None = input_file @ ''.decoded''"
    by (simp add: effective_output_def)
  show ?thesis
    using run_written [OF assms(1,2), of None] run_success [OF assms(1,2), of None] assms(3,4)
    by (simp add: p)
qed

theorem default_output_path_witness:
  "read_text (example_world ''msg.txt'' ''QUJD'') ''msg.txt'' = Inr ''QUJD''
   \<and> b64decode (strip ''QUJD'') = Inr [65, 66, 67]
   \<and> open_wb (example_world ''msg.txt'' ''QUJD'') (''msg.txt'' @ ''.decoded'') = None
   \<and> write_fault (example_world ''msg.txt'' ''QUJD'') (''msg.txt'' @ ''.decoded'') = None
   \<and> stdout_fault (example_world ''msg.txt'' ''QUJD'')
       (''Decoded '' @ ''msg.txt'' @ '' to '' @ ''msg.txt'' @ ''.decoded'') = None
   \<and> files (fst (decode_base64_file (example_world ''msg.txt'' ''QUJD'') ''msg.txt'' None))
       = [''msg.txt'' \<mapsto> [81, 85, 74, 68], ''msg.txt.decoded'' \<mapsto> [65, 66, 67]]
   \<and> snd (decode_base64_file (example_world ''msg.txt'' ''QUJD'') ''msg.txt'' None) = Returned"
proof -
  let ?w = "example_world ''msg.txt'' ''QUJD''"
  have r: "read_text ?w ''msg.txt'' = Inr ''QUJD''"
    by (simp add: example_world_def)
  have d: "b64decode (strip ''QUJD'') = Inr [65, 66, 67]"
    by (simp add: strip_def isspace_def b64decode_def bytes_from_decode_data_def is_ascii_def
          a2b_base64_def table_a2b_base64_def BASE64_PAD_def)
  have o: "open_wb ?w (''msg.txt'' @ ''.decoded'') = None"
    by (simp add: example_world_def)
  have f: "write_fault ?w (''msg.txt'' @ ''.decoded'') = None"
    by (simp add: example_world_def)
  have q: "stdout_fault ?w (''Decoded '' @ ''msg.txt'' @ '' to '' @ ''msg.txt'' @ ''.decoded'')
      = None"
    by (simp add: example_world_def)
  have i: "files ?w = [''msg.txt'' \<mapsto> [81, 85, 74, 68]]"
    by (simp add: example_world_def utf8_def)
  show ?thesis
    using r d o f q default_output_path [OF r d o f] by (simp add: i)
qed

text \<open>
  C6, as stated, fails for the empty output path: with \<^verbatim>\<open>-o ''\<close> the test
  \<^verbatim>\<open>not output_file\<close> holds, and the bytes go to \<^verbatim>\<open>in.b64.decoded\<close>, while no file with
  the empty path is written.
\<close>

theorem empty_output_counterexample:
  "files (fst (decode_base64_file (example_world ''in.b64'' ''QUJD'') ''in.b64'' (Some [])))
     [] = None
   \<and> files (fst (decode_base64_file (example_world ''in.b64'' ''QUJD'') ''in.b64'' (Some [])))
       ''in.b64.decoded'' = Some [65, 66, 67]
   \<and> snd (decode_base64_file (example_world ''in.b64'' ''QUJD'') ''in.b64'' (Some []))
       = Returned"
  by (simp add: strip_def isspace_def b64decode_def bytes_from_decode_data_def
        is_ascii_def a2b_base64_def table_a2b_base64_def BASE64_PAD_def decode_base64_file_def
        try_body_def example_world_def effective_output_def write_file_def print_stdout_def)

text \<open>
  C6, amended. For every input path and every supplied non-empty output path \<open>q\<close>, a run
  that reads, decodes and writes without fault stores the decoded bytes at exactly the
  path \<open>q\<close>, whatever the input path is. When the confirmation can be printed as well,
  the function returns normally.
\<close>

theorem explicit_output_path:
  assumes "read_text w input_file = Inr text"
    and "b64decode (strip text) = Inr decoded"
    and "q \<noteq> []"
    and "open_wb w q = None"
    and "write_fault w q = None"
  shows "files (fst (decode_base64_file w input_file (Some q))) = (files w)(q \<mapsto> decoded)
       \<and> (stdout_fault w (''Decoded '' @ input_file @ '' to '' @ q) = None
           \<longrightarrow> snd (decode_base64_file w input_file (Some q)) = Returned)"
proof -
  have p: "effective_output input_file (Some q) = q"
    using assms(3) by (simp add: effective_output_def)
  show ?thesis
    using run_written [OF assms(1,2), of "Some q"] run_success [OF assms(1,2), of "Some q"]
      assms(4,5)
    by (simp add: p)
qed

theorem explicit_output_path_witness:
  "read_text (example_world ''msg.txt'' ''QUJD'') ''msg.txt'' = Inr ''QUJD''
   \<and> b64decode (strip ''QUJD'') = Inr [65, 66, 67]
   \<and> ''out.bin'' \<noteq> []
   \<and> open_wb (example_world ''msg.txt'' ''QUJD'') ''out.bin'' = None
   \<and> write_fault (example_world ''msg.txt'' ''QUJD'') ''out.bin'' = None
   \<and> stdout_fault (example_world ''msg.txt'' ''QUJD'')
       (''Decoded '' @ ''msg.txt'' @ '' to '' @ ''out.bin'') = None
   \<and> files (fst (decode_base64_file (example_world ''msg.txt'' ''QUJD'') ''msg.txt''
                   (Some ''out.bin'')))
       = [''msg.txt'' \<mapsto> [81, 85, 74, 68], ''out.bin'' \<mapsto> [65, 66, 67]]
   \<and> snd (decode_base64_file (example_world ''msg.txt'' ''QUJD'') ''msg.txt''
            (Some ''out.bin'')) = Returned"
proof -
  let ?w = "example_world ''msg.txt'' ''QUJD''"
  have r: "read_text ?w ''msg.txt'' = Inr ''QUJD''"
    by (simp add: example_world_def)
  have d: "b64decode (strip ''QUJD'') = Inr [65, 66, 67]"
    by (simp add: strip_def isspace_def b64decode_def bytes_from_decode_data_def is_ascii_def
          a2b_base64_def table_a2b_base64_def BASE64_PAD_def)
  have n: "''out.bin'' \<noteq> []"
    by simp
  have o: "open_wb ?w ''out.bin'' = None"
    by (simp add: example_world_def)
  have f: "write_fault ?w ''out.bin'' = None"
    by (simp add: example_world_def)
  have q: "stdout_fault ?w (''Decoded '' @ ''msg.txt'' @ '' to '' @ ''out.bin'') = None"
    by (simp add: example_world_def)
  have i: "files ?w = [''msg.txt'' \<mapsto> [81, 85, 74, 68]]"
    by (simp add: example_world_def utf8_def)
  show ?thesis
    using r d o f q explicit_output_path [OF r d n o f] by (simp add: i)
qed

text \<open>
  C7 (whitespace tolerance). If \<open>w1\<close> and \<open>w2\<close> consist of whitespace (characters for
  which \<^verbatim>\<open>isspace\<close> holds, among them the space and the newline), a run on the content
  \<open>w1 @ s @ w2\<close> decodes to exactly what a run on \<open>s\<close> alone decodes to: the decode
  step gives the same result, and in worlds that differ only in that content the two
  runs leave the same files and end the same way.
\<close>

theorem whitespace_tolerance:
  assumes "\<forall>c \<in> set w1. isspace c" and "\<forall>c \<in> set w2. isspace c"
    and "read_text w input_file = Inr (w1 @ s @ w2)"
    and "read_text w' input_file = Inr s"
    and "open_wb w' = open_wb w" and "write_fault w' = write_fault w"
    and "stdout_fault w' = stdout_fault w" and "files w' = files w"
  shows "b64decode (strip (w1 @ s @ w2)) = b64decode (strip s)
       \<and> files (fst (decode_base64_file w input_file output_file))
           = files (fst (decode_base64_file w' input_file output_file))
       \<and> snd (decode_base64_file w input_file output_file)
           = snd (decode_base64_file w' input_file output_file)"
proof -
  have s: "strip (w1 @ s @ w2) = strip s"
    by (rule strip_padded [OF assms(1,2)])
  show ?thesis
    using assms(3-8)
    by (simp add: s decode_base64_file_def try_body_def write_file_def print_stdout_def
          print_stderr_def Let_def split: sum.splits option.splits prod.splits)
qed

theorem whitespace_tolerance_witness:
  "isspace newline \<and> isspace CHR '' ''
   \<and> b64decode (strip ([newline, CHR '' ''] @ ''QUJD'' @ [CHR '' '', newline]))
       = b64decode (strip ''QUJD'')
   \<and> files (fst (decode_base64_file
         (example_world ''in.b64'' ([newline, CHR '' ''] @ ''QUJD'' @ [CHR '' '', newline]))
         ''in.b64'' None)) ''in.b64.decoded''
       = files (fst (decode_base64_file
           ((example_world ''in.b64'' ([newline, CHR '' ''] @ ''QUJD'' @ [CHR '' '', newline]))
              \<lparr>read_text := (\<lambda>p. Inr ''QUJD'')\<rparr>)
           ''in.b64'' None)) ''in.b64.decoded''
   \<and> files (fst (decode_base64_file
         (example_world ''in.b64'' ([newline, CHR '' ''] @ ''QUJD'' @ [CHR '' '', newline]))
         ''in.b64'' None)) ''in.b64.decoded'' = Some [65, 66, 67]"
proof -
  let ?t = "[newline, CHR '' ''] @ ''QUJD'' @ [CHR '' '', newline]"
  let ?w = "example_world ''in.b64'' ?t"
  let ?w' = "?w\<lparr>read_text := (\<lambda>p. Inr ''QUJD'')\<rparr>"
  have a: "\<forall>c \<in> set [newline, CHR '' '']. isspace c"
    by (simp add: isspace_def newline_def)
  have b: "\<forall>c \<in> set [CHR '' '', newline]. isspace c"
    by (simp add: isspace_def newline_def)
  have r: "read_text ?w ''in.b64'' = Inr ?t"
    by (simp add: example_world_def)
  have r': "read_text ?w' ''in.b64'' = Inr ''QUJD''"
    by simp
  have o: "open_wb ?w' = open_wb ?w" and f: "write_fault ?w' = write_fault ?w"
    and q: "stdout_fault ?w' = stdout_fault ?w" and i: "files ?w' = files ?w"
    by simp_all
  have v: "files (fst (decode_base64_file ?w' ''in.b64'' None)) ''in.b64.decoded''
         = Some [65, 66, 67]"
    by (simp add: strip_def isspace_def b64decode_def bytes_from_decode_data_def
        is_ascii_def a2b_base64_def table_a2b_base64_def BASE64_PAD_def decode_base64_file_def
        try_body_def example_world_def effective_output_def write_file_def print_stdout_def)
  have c: "isspace newline \<and> isspace CHR '' ''"
    by (simp add: isspace_def newline_def)
  show ?thesis
    using c v whitespace_tolerance [OF a b r r' o f q i, of None]
    by simp
qed

text \<open>
  C8, as stated, fails in two ways. First, the printed text holds the paths as they are:
  for the input path \<^verbatim>\<open>a\<close>, newline, \<^verbatim>\<open>b\<close> the run is successful with status 0, and
  standard output receives three lines, not one. Second, the confirmation \<^verbatim>\<open>print\<close> is
  inside the \<^verbatim>\<open>try\<close>: when standard output is an ASCII stream and the input path is
  \<^verbatim>\<open>caf\<close>, the character with code point 233, \<^verbatim>\<open>.b64\<close>, the input is read, the content
  decodes and the output file is written in full, and yet the print raises, standard
  output receives nothing, standard error receives the error line and the status is 1.
\<close>

theorem success_report_counterexample:
  "read_text (example_world [CHR ''a'', newline, CHR ''b''] ''QUJD'')
       [CHR ''a'', newline, CHR ''b''] = Inr ''QUJD''
   \<and> b64decode (strip ''QUJD'') = Inr [65, 66, 67]
   \<and> files (fst (main (example_world [CHR ''a'', newline, CHR ''b''] ''QUJD'')
                   [CHR ''a'', newline, CHR ''b''] None))
         ([CHR ''a'', newline, CHR ''b''] @ ''.decoded'') = Some [65, 66, 67]
   \<and> snd (main (example_world [CHR ''a'', newline, CHR ''b''] ''QUJD'')
            [CHR ''a'', newline, CHR ''b''] None) = 0
   \<and> length (filter (\<lambda>c. c = newline)
         (stdout (fst (main (example_world [CHR ''a'', newline, CHR ''b''] ''QUJD'')
                         [CHR ''a'', newline, CHR ''b''] None)))) = 3
   \<and> read_text (ascii_stdout (example_world (''caf'' @ [CHR 0xE9] @ ''.b64'') ''QUJD''))
         (''caf'' @ [CHR 0xE9] @ ''.b64'') = Inr ''QUJD''
   \<and> files (fst (main (ascii_stdout (example_world (''caf'' @ [CHR 0xE9] @ ''.b64'') ''QUJD''))
                   (''caf'' @ [CHR 0xE9] @ ''.b64'') None))
         (''caf'' @ [CHR 0xE9] @ ''.b64.decoded'') = Some [65, 66, 67]
   \<and> snd (main (ascii_stdout (example_world (''caf'' @ [CHR 0xE9] @ ''.b64'') ''QUJD''))
            (''caf'' @ [CHR 0xE9] @ ''.b64'') None) = 1
   \<and> stdout (fst (main (ascii_stdout (example_world (''caf'' @ [CHR 0xE9] @ ''.b64'') ''QUJD''))
                    (''caf'' @ [CHR 0xE9] @ ''.b64'') None)) = []
   \<and> stderr (fst (main (ascii_stdout (example_world (''caf'' @ [CHR 0xE9] @ ''.b64'') ''QUJD''))
                    (''caf'' @ [CHR 0xE9] @ ''.b64'') None))
       = ''Error: '' @ [CHR 0x27] @ ''ascii'' @ [CHR 0x27] @ '' codec can''
           @ [CHR 0x27] @ ''t encode character '' @ [CHR 0x27, CHR 0x5C] @ ''xe9''
           @ [CHR 0x27] @ '' in position 11: ordinal not in range(128)'' @ [newline]"
  by (simp add: strip_def isspace_def b64decode_def bytes_from_decode_data_def main_def
        is_ascii_def a2b_base64_def table_a2b_base64_def BASE64_PAD_def decode_base64_file_def
        try_body_def example_world_def ascii_stdout_def effective_output_def write_file_def
        print_stdout_def print_stderr_def newline_def ascii_codec_message_def hex_digit_def
        char_of_eq_iff)

text \<open>
  C8, amended. On a run where the input is readable, the content decodes, the output is
  written without fault and the confirmation \<^verbatim>\<open>print\<close> does not fail, the process status
  is 0, standard output receives exactly the text \<^verbatim>\<open>Decoded <input> to <output>\<close>, with
  the input path and the effective output path, followed by a newline, and standard error
  receives nothing. When neither path contains a newline, that text is exactly one line.
\<close>

theorem success_report:
  assumes "read_text w input_file = Inr text"
    and "b64decode (strip text) = Inr decoded"
    and "open_wb w (effective_output input_file output_file) = None"
    and "write_fault w (effective_output input_file output_file) = None"
    and "stdout_fault w
           (''Decoded '' @ input_file @ '' to '' @ effective_output input_file output_file)
         = None"
  shows "snd (main w input_file output_file) = 0
       \<and> stdout (fst (main w input_file output_file))
           = stdout w @ ''Decoded '' @ input_file @ '' to ''
               @ effective_output input_file output_file @ [newline]
       \<and> stderr (fst (main w input_file output_file)) = stderr w
       \<and> (newline \<notin> set input_file
             \<and> newline \<notin> set (effective_output input_file output_file)
           \<longrightarrow> length (filter (\<lambda>c. c = newline)
                 (''Decoded '' @ input_file @ '' to ''
                    @ effective_output input_file output_file @ [newline])) = 1)"
proof -
  have "length (filter (\<lambda>c. c = newline)
          (''Decoded '' @ input_file @ '' to ''
             @ effective_output input_file output_file @ [newline])) = 1"
    if "newline \<notin> set input_file"
      and "newline \<notin> set (effective_output input_file output_file)"
  proof -
    have "filter (\<lambda>c. c = newline) input_file = []"
      "filter (\<lambda>c. c = newline) (effective_output input_file output_file) = []"
      using that by (auto simp: filter_empty_conv)
    then show ?thesis
      by (simp add: newline_def)
  qed
  then show ?thesis
    using run_success [OF assms]
    by (simp add: main_def)
qed

theorem success_report_witness:
  "read_text (example_world ''in.b64'' ''SGVsbG8sIFdvcmxkIQ=='') ''in.b64''
     = Inr ''SGVsbG8sIFdvcmxkIQ==''
   \<and> b64decode (strip ''SGVsbG8sIFdvcmxkIQ=='') = Inr (map of_char ''Hello, World!'')
   \<and> open_wb (example_world ''in.b64'' ''SGVsbG8sIFdvcmxkIQ=='')
       (effective_output ''in.b64'' None) = None
   \<and> write_fault (example_world ''in.b64'' ''SGVsbG8sIFdvcmxkIQ=='')
       (effective_output ''in.b64'' None) = None
   \<and> stdout_fault (example_world ''in.b64'' ''SGVsbG8sIFdvcmxkIQ=='')
       (''Decoded '' @ ''in.b64'' @ '' to '' @ effective_output ''in.b64'' None) = None
   \<and> newline \<notin> set ''in.b64'' \<and> newline \<notin> set (effective_output ''in.b64'' None)
   \<and> snd (main (example_world ''in.b64'' ''SGVsbG8sIFdvcmxkIQ=='') ''in.b64'' None) = 0
   \<and> stdout (fst (main (example_world ''in.b64'' ''SGVsbG8sIFdvcmxkIQ=='') ''in.b64'' None))
       = ''Decoded in.b64 to in.b64.decoded'' @ [newline]
   \<and> stderr (fst (main (example_world ''in.b64'' ''SGVsbG8sIFdvcmxkIQ=='') ''in.b64'' None))
       = []
   \<and> length (filter (\<lambda>c. c = newline) (''Decoded in.b64 to in.b64.decoded'' @ [newline])) = 1"
proof -
  let ?w = "example_world ''in.b64'' ''SGVsbG8sIFdvcmxkIQ==''"
  have r: "read_text ?w ''in.b64'' = Inr ''SGVsbG8sIFdvcmxkIQ==''"
    by (simp add: example_world_def)
  have s: "strip ''SGVsbG8sIFdvcmxkIQ=='' = b64encode (map of_char ''Hello, World!'')"
    by (simp only: hello_encoded) (simp add: strip_def isspace_def)
  have d: "b64decode (strip ''SGVsbG8sIFdvcmxkIQ=='') = Inr (map of_char ''Hello, World!'')"
    by (simp only: s b64decode_b64encode)
  have o: "open_wb ?w (effective_output ''in.b64'' None) = None"
    by (simp add: example_world_def)
  have f: "write_fault ?w (effective_output ''in.b64'' None) = None"
    by (simp add: example_world_def)
  have q: "stdout_fault ?w
      (''Decoded '' @ ''in.b64'' @ '' to '' @ effective_output ''in.b64'' None) = None"
    by (simp add: example_world_def)
  have p: "effective_output ''in.b64'' None = ''in.b64.decoded''"
    by (simp add: effective_output_def)
  have n: "newline \<notin> set ''in.b64''" "newline \<notin> set (effective_output ''in.b64'' None)"
    by (simp_all add: p newline_def)
  have e: "stdout ?w = []" "stderr ?w = []"
    by (simp_all add: example_world_def)
  show ?thesis
    using r d o f q n success_report [OF r d o f q]
    by (simp only: p e append_Nil simp_thms) simp
qed

text \<open>
  C9 (failure report). Whichever step fails with an exception \<open>e\<close> (reading the input,
  decoding the content, opening the output, writing the output), the handler catches it:
  the function leaves through \<^verbatim>\<open>sys.exit(1)\<close> and no other way, the process status is 1,
  standard error receives exactly the text of one \<^verbatim>\<open>print\<close> call, \<^verbatim>\<open>Error: \<close> followed by
  \<^verbatim>\<open>str(e)\<close> and a newline, and standard output receives nothing.
\<close>

theorem failure_report:
  assumes "read_text w input_file = Inl e
         \<or> (\<exists>text. read_text w input_file = Inr text \<and> b64decode (strip text) = Inl e)
         \<or> (\<exists>text decoded. read_text w input_file = Inr text
               \<and> b64decode (strip text) = Inr decoded
               \<and> (open_wb w (effective_output input_file output_file) = Some e
                  \<or> (open_wb w (effective_output input_file output_file) = None
                     \<and> (\<exists>n. write_fault w (effective_output input_file output_file)
                               = Some (e, n)))))"
  shows "snd (decode_base64_file w input_file output_file) = SystemExit 1
       \<and> snd (main w input_file output_file) = 1
       \<and> stderr (fst (main w input_file output_file))
           = stderr w @ ''Error: '' @ str_exn e @ [newline]
       \<and> stdout (fst (main w input_file output_file)) = stdout w"
proof -
  from assms consider
      (rd) "read_text w input_file = Inl e"
    | (dec) t where "read_text w input_file = Inr t" "b64decode (strip t) = Inl e"
    | (opn) t decoded where "read_text w input_file = Inr t"
        "b64decode (strip t) = Inr decoded"
        "open_wb w (effective_output input_file output_file) = Some e"
    | (wr) t decoded n where "read_text w input_file = Inr t"
        "b64decode (strip t) = Inr decoded"
        "open_wb w (effective_output input_file output_file) = None"
        "write_fault w (effective_output input_file output_file) = Some (e, n)"
    by blast
  then show ?thesis
  proof cases
    case rd
    then show ?thesis
      by (simp add: run_read_error main_def print_stderr_def)
  next
    case dec
    then show ?thesis
      by (simp add: run_decode_error main_def print_stderr_def)
  next
    case opn
    then show ?thesis
      by (simp add: run_open_error main_def print_stderr_def)
  next
    case wr
    then show ?thesis
      by (simp add: run_write_error main_def print_stderr_def)
  qed
qed

theorem failure_report_witness:
  "read_text (example_world ''in.b64'' ''QUJD'') ''missing.b64''
     = Inl (OSError (''[Errno 2] No such file or directory: ''
                   @ [CHR 0x27] @ ''missing.b64'' @ [CHR 0x27]))
   \<and> snd (decode_base64_file (example_world ''in.b64'' ''QUJD'') ''missing.b64'' None)
       = SystemExit 1
   \<and> snd (main (example_world ''in.b64'' ''QUJD'') ''missing.b64'' None) = 1
   \<and> stderr (fst (main (example_world ''in.b64'' ''QUJD'') ''missing.b64'' None))
       = ''Error: [Errno 2] No such file or directory: ''
           @ [CHR 0x27] @ ''missing.b64'' @ [CHR 0x27] @ [newline]
   \<and> stdout (fst (main (example_world ''in.b64'' ''QUJD'') ''missing.b64'' None)) = []"
proof -
  let ?w = "example_world ''in.b64'' ''QUJD''"
  let ?e = "OSError (''[Errno 2] No such file or directory: ''
                      @ [CHR 0x27] @ ''missing.b64'' @ [CHR 0x27])"
  have r: "read_text ?w ''missing.b64'' = Inl ?e"
    by (simp add: example_world_def)
  have e: "stdout ?w = []" "stderr ?w = []"
    by (simp_all add: example_world_def)
  have "read_text ?w ''missing.b64'' = Inl ?e
         \<or> (\<exists>text. read_text ?w ''missing.b64'' = Inr text \<and> b64decode (strip text) = Inl ?e)
         \<or> (\<exists>text decoded. read_text ?w ''missing.b64'' = Inr text
               \<and> b64decode (strip text) = Inr decoded
               \<and> (open_wb ?w (effective_output ''missing.b64'' None) = Some ?e
                  \<or> (open_wb ?w (effective_output ''missing.b64'' None) = None
                     \<and> (\<exists>n. write_fault ?w (effective_output ''missing.b64'' None)
                               = Some (?e, n)))))"
    using r by (rule disjI1)
  from failure_report [OF this] r show ?thesis
    by (simp only: e append_Nil str_exn.simps simp_thms) simp
qed

text \<open>
  C10 (no output on an early failure). If reading the input or decoding its content
  fails, the files after the run are the files before it. Conversely, a run that fails
  and has changed the files has read and decoded its input and opened the output. Either
  it failed in the write step, and the only change is that the output path holds the
  bytes that reached the file before the fault; or the write went through and the
  confirmation could not be printed, and the output path holds all the decoded bytes.
  So partial output arises only from a fault in the write step.
\<close>

theorem early_failure_keeps_files:
  "((read_text w input_file = Inl e
      \<or> (\<exists>text. read_text w input_file = Inr text \<and> b64decode (strip text) = Inl e))
     \<longrightarrow> files (fst (decode_base64_file w input_file output_file)) = files w)
   \<and> (snd (decode_base64_file w input_file output_file) \<noteq> Returned
       \<and> files (fst (decode_base64_file w input_file output_file)) \<noteq> files w
     \<longrightarrow> (\<exists>text decoded. read_text w input_file = Inr text
            \<and> b64decode (strip text) = Inr decoded
            \<and> open_wb w (effective_output input_file output_file) = None
            \<and> ((\<exists>x n. write_fault w (effective_output input_file output_file) = Some (x, n)
                   \<and> files (fst (decode_base64_file w input_file output_file))
                       = (files w)(effective_output input_file output_file
                                     \<mapsto> take n decoded))
               \<or> (write_fault w (effective_output input_file output_file) = None
                   \<and> (\<exists>x. stdout_fault w
                         (''Decoded '' @ input_file @ '' to ''
                            @ effective_output input_file output_file) = Some x)
                   \<and> files (fst (decode_base64_file w input_file output_file))
                       = (files w)(effective_output input_file output_file \<mapsto> decoded)))))"
proof (intro conjI impI)
  assume "read_text w input_file = Inl e
      \<or> (\<exists>text. read_text w input_file = Inr text \<and> b64decode (strip text) = Inl e)"
  then show "files (fst (decode_base64_file w input_file output_file)) = files w"
    by (auto simp: run_read_error run_decode_error print_stderr_def)
next
  let ?q = "effective_output input_file output_file"
  let ?line = "''Decoded '' @ input_file @ '' to '' @ ?q"
  let ?r = "decode_base64_file w input_file output_file"
  assume a: "snd ?r \<noteq> Returned \<and> files (fst ?r) \<noteq> files w"
  show "\<exists>text decoded. read_text w input_file = Inr text
            \<and> b64decode (strip text) = Inr decoded
            \<and> open_wb w ?q = None
            \<and> ((\<exists>x n. write_fault w ?q = Some (x, n)
                   \<and> files (fst ?r) = (files w)(?q \<mapsto> take n decoded))
               \<or> (write_fault w ?q = None
                   \<and> (\<exists>x. stdout_fault w ?line = Some x)
                   \<and> files (fst ?r) = (files w)(?q \<mapsto> decoded)))"
  proof (cases "read_text w input_file")
    case (Inl x)
    then show ?thesis
      using a by (simp add: run_read_error print_stderr_def)
  next
    case (Inr t)
    show ?thesis
    proof (cases "b64decode (strip t)")
      case (Inl x)
      then show ?thesis
        using a Inr by (simp add: run_decode_error print_stderr_def)
    next
      case d: (Inr decoded)
      show ?thesis
      proof (cases "open_wb w ?q")
        case (Some x)
        then show ?thesis
          using a Inr d by (simp add: run_open_error print_stderr_def)
      next
        case None
        show ?thesis
        proof (cases "write_fault w ?q")
          case n: None
          show ?thesis
          proof (cases "stdout_fault w ?line")
            case p: None
            then show ?thesis
              using a run_success [OF Inr d None n p] by simp
          next
            case (Some x)
            then show ?thesis
              using Inr d None n run_written [OF Inr d None n] by simp
          qed
        next
          case (Some xn)
          then obtain x n where xn: "write_fault w ?q = Some (x, n)"
            by (cases xn) simp
          show ?thesis
            using Inr d None xn run_write_error [OF Inr d None xn]
            by (simp add: print_stderr_def)
        qed
      qed
    qed
  qed
qed

theorem early_failure_keeps_files_witness:
  "read_text (example_world ''in.b64'' ''QUJD'') ''missing.b64''
     = Inl (OSError (''[Errno 2] No such file or directory: ''
                   @ [CHR 0x27] @ ''missing.b64'' @ [CHR 0x27]))
   \<and> files (fst (decode_base64_file (example_world ''in.b64'' ''QUJD'') ''missing.b64'' None))
       = files (example_world ''in.b64'' ''QUJD'')
   \<and> snd (decode_base64_file
         ((example_world ''in.b64'' ''QUJD'')
            \<lparr>write_fault := (\<lambda>p. Some (OSError ''[Errno 28] No space left on device'', 2))\<rparr>)
         ''in.b64'' None) \<noteq> Returned
   \<and> files (fst (decode_base64_file
         ((example_world ''in.b64'' ''QUJD'')
            \<lparr>write_fault := (\<lambda>p. Some (OSError ''[Errno 28] No space left on device'', 2))\<rparr>)
         ''in.b64'' None)) ''in.b64.decoded'' = Some [65, 66]
   \<and> (\<exists>decoded x n.
         b64decode (strip ''QUJD'') = Inr decoded
         \<and> write_fault
              ((example_world ''in.b64'' ''QUJD'')
                 \<lparr>write_fault :=
                    (\<lambda>p. Some (OSError ''[Errno 28] No space left on device'', 2))\<rparr>)
              ''in.b64.decoded'' = Some (x, n)
         \<and> take n decoded = [65, 66])"
proof -
  let ?w = "example_world ''in.b64'' ''QUJD''"
  let ?e = "OSError (''[Errno 2] No such file or directory: ''
                      @ [CHR 0x27] @ ''missing.b64'' @ [CHR 0x27])"
  let ?v = "?w\<lparr>write_fault := (\<lambda>p. Some (OSError ''[Errno 28] No space left on device'', 2))\<rparr>"
  have r: "read_text ?w ''missing.b64'' = Inl ?e"
    by (simp add: example_world_def)
  have k: "files (fst (decode_base64_file ?w ''missing.b64'' None)) = files ?w"
    using early_failure_keeps_files [of ?w "''missing.b64''" ?e None] r by blast
  have p: "effective_output ''in.b64'' None = ''in.b64.decoded''"
    by (simp add: effective_output_def)
  have d: "b64decode (strip ''QUJD'') = Inr [65, 66, 67]"
    by (simp add: strip_def isspace_def b64decode_def bytes_from_decode_data_def is_ascii_def
          a2b_base64_def table_a2b_base64_def BASE64_PAD_def)
  have run: "decode_base64_file ?v ''in.b64'' None =
      (print_stderr (?v\<lparr>files := (files ?v)(''in.b64.decoded'' \<mapsto> take 2 [65, 66, 67])\<rparr>)
         (''Error: '' @ str_exn (OSError ''[Errno 28] No space left on device'')), SystemExit 1)"
    using run_write_error [of ?v "''in.b64''" "''QUJD''" "[65, 66, 67]" None
        "OSError ''[Errno 28] No space left on device''" 2] d
    by (simp add: p example_world_def)
  have s: "snd (decode_base64_file ?v ''in.b64'' None) \<noteq> Returned"
    by (simp add: run)
  have f: "files (fst (decode_base64_file ?v ''in.b64'' None)) ''in.b64.decoded'' = Some [65, 66]"
    by (simp add: run print_stderr_def)
  have "files ?v ''in.b64.decoded'' = None"
    by (simp add: example_world_def)
  then have c: "files (fst (decode_base64_file ?v ''in.b64'' None)) \<noteq> files ?v"
    using f by auto
  have nf: "write_fault ?v (effective_output ''in.b64'' None) \<noteq> None"
    by simp
  from early_failure_keeps_files [of ?v "''in.b64''" ?e None] s c nf
  obtain t decoded x n where
    w: "read_text ?v ''in.b64'' = Inr t" "b64decode (strip t) = Inr decoded"
       "write_fault ?v (effective_output ''in.b64'' None) = Some (x, n)"
       "files (fst (decode_base64_file ?v ''in.b64'' None))
          = (files ?v)(effective_output ''in.b64'' None \<mapsto> take n decoded)"
    by blast
  from w(1) have t: "t = ''QUJD''"
    by (simp add: example_world_def)
  from w(4) f have "take n decoded = [65, 66]"
    by (simp add: p)
  then have "\<exists>decoded x n.
         b64decode (strip ''QUJD'') = Inr decoded
         \<and> write_fault ?v ''in.b64.decoded'' = Some (x, n)
         \<and> take n decoded = [65, 66]"
    using w(2,3) unfolding t p by blast
  then show ?thesis
    using r k s f by blast
qed

end
